theory Spec2Isabelle
  imports Main "HOL-Library.Word"
begin

section \<open>The S3 upload plugin (plugin.go)\<close>

text \<open>
  The plugin is glue over the Go standard library, zglob and the AWS SDK. None of these is
  part of the repository, so every operation of theirs that the plugin calls is a field of
  the record \<open>sys\<close> below: the theorems hold for every implementation of them. Operations
  that touch the file system or the network take the state of the outside world (of an
  arbitrary type \<open>'w\<close>) and return it changed, so two calls with the same argument may
  answer differently. \<open>'f\<close> is the type of open file handles.
\<close>

subsection \<open>Data\<close>

type_synonym byte = "8 word"

text \<open>A Go \<open>error\<close> value; \<open>nil\<close> is \<open>None\<close> of \<open>error option\<close>.\<close>

datatype error = Err string

text \<open>\<open>type Plugin struct\<close>, lines 21 to 73.\<close>

record Plugin =
  Endpoint :: string
  Key :: string
  Secret :: string
  Bucket :: string
  Region :: string
  Access :: string
  Source :: string
  Target :: string
  Recursive :: bool
  Exclude :: "string list"
  PathStyle :: bool
  DryRun :: bool
  Compress :: bool

text \<open>What \<open>os.Stat\<close> returns; the plugin reads \<open>IsDir()\<close> only.\<close>

record FileInfo =
  IsDir :: bool

text \<open>
  The fields of \<open>aws.Config\<close> that line 78 sets. The credentials are the three arguments of
  \<open>credentials.NewStaticCredentials\<close>.
\<close>

record aws_Config =
  cfg_Credentials :: "string \<times> string \<times> string"
  cfg_Region :: string
  cfg_Endpoint :: string
  cfg_DisableSSL :: bool
  cfg_S3ForcePathStyle :: bool

text \<open>
  The body of a request is an \<open>io.ReadSeeker\<close>: the plugin passes either the open file
  itself or a reader over a byte buffer.
\<close>

datatype 'f body = FileBody 'f | BytesBody "byte list"

text \<open>
  The fields of \<open>s3.PutObjectInput\<close> that the plugin sets. A field that is a nil pointer
  is \<open>None\<close>.
\<close>

record 'f PutObjectInput =
  in_Bucket :: string
  in_Key :: string
  in_ACL :: string
  in_ContentType :: string
  in_Body :: "'f body option"
  in_ContentEncoding :: "string option"

text \<open>The outside world, as the plugin uses it.\<close>

record ('w, 'f) sys =
  Glob :: "string \<Rightarrow> 'w \<Rightarrow> (error + string list) \<times> 'w"
  Stat :: "string \<Rightarrow> 'w \<Rightarrow> (error + FileInfo) \<times> 'w"
  Open :: "string \<Rightarrow> 'w \<Rightarrow> (error + 'f) \<times> 'w"
  ReadAll :: "'f \<Rightarrow> 'w \<Rightarrow> (error + byte list) \<times> 'w"
  GzipEncode :: "byte list \<Rightarrow> byte list"
  Close :: "'f \<Rightarrow> 'w \<Rightarrow> 'w"
  PutObject :: "aws_Config \<Rightarrow> 'f PutObjectInput \<Rightarrow> 'w \<Rightarrow> error option \<times> 'w"
  Join :: "string \<Rightarrow> string \<Rightarrow> string"
  Ext :: "string \<Rightarrow> string"
  TypeByExtension :: "string \<Rightarrow> string"

text \<open>
  \<^item> \<open>Glob\<close> is \<open>zglob.Glob\<close>, \<open>Stat\<close> is \<open>os.Stat\<close>, \<open>Open\<close> is \<open>os.Open\<close>,
    \<open>Close\<close> is \<open>(*os.File).Close\<close> (its error is never read by the plugin).
  \<^item> \<open>io.Copy(gw, f)\<close> at line 160 reads the file to its end and writes what it reads to
    the gzip writer, which writes to a \<open>bytes.Buffer\<close>. \<open>ReadAll\<close> is the reading part: the
    bytes of the file, or the error that ends the copy. \<open>GzipEncode\<close> is what the buffer
    holds after \<open>gw.Close()\<close> when those bytes were written.
  \<^item> \<open>PutObject\<close> is \<open>(*s3.S3).PutObject\<close> on the client built from the given
    configuration; the plugin discards its output value.
  \<^item> \<open>Join\<close> is \<open>filepath.Join\<close> on two elements, \<open>Ext\<close> is \<open>filepath.Ext\<close>,
    \<open>TypeByExtension\<close> is \<open>mime.TypeByExtension\<close>, which answers the empty string for an
    extension it has no type for.
\<close>

subsection \<open>What a run does, as a trace\<close>

datatype level = InfoLevel | ErrorLevel

datatype logval = StrVal string | ErrVal error

text \<open>
  Every call that leaves the program is recorded with its answer. A log entry holds the
  level, the message and the fields in the order the source writes them.
\<close>

datatype 'f event =
    EvLog level string "(string \<times> logval) list"
  | EvStat string "error + FileInfo"
  | EvOpen string "error + 'f"
  | EvCopy 'f "error + byte list"
  | EvPutObject aws_Config "'f PutObjectInput" "error option"
  | EvClose 'f

text \<open>
  The state of a run: the configuration \<open>p\<close> points to, the outside world, the trace so
  far, and the files whose \<open>Close\<close> has been deferred, the latest first.
\<close>

record ('w, 'f) state =
  plugin :: Plugin
  world :: 'w
  trace :: "'f event list"
  deferred :: "'f list"

definition emit :: "'f event \<Rightarrow> ('w, 'f) state \<Rightarrow> ('w, 'f) state" where
  "emit ev st = st\<lparr>trace := trace st @ [ev]\<rparr>"

definition do_Stat ::
  "('w, 'f) sys \<Rightarrow> string \<Rightarrow> ('w, 'f) state \<Rightarrow> (error + FileInfo) \<times> ('w, 'f) state" where
  "do_Stat sys name st =
     (case Stat sys name (world st) of
        (r, w) \<Rightarrow> (r, emit (EvStat name r) (st\<lparr>world := w\<rparr>)))"

definition do_Open ::
  "('w, 'f) sys \<Rightarrow> string \<Rightarrow> ('w, 'f) state \<Rightarrow> (error + 'f) \<times> ('w, 'f) state" where
  "do_Open sys name st =
     (case Open sys name (world st) of
        (r, w) \<Rightarrow> (r, emit (EvOpen name r) (st\<lparr>world := w\<rparr>)))"

definition do_Copy ::
  "('w, 'f) sys \<Rightarrow> 'f \<Rightarrow> ('w, 'f) state \<Rightarrow> (error + byte list) \<times> ('w, 'f) state" where
  "do_Copy sys f st =
     (case ReadAll sys f (world st) of
        (r, w) \<Rightarrow> (r, emit (EvCopy f r) (st\<lparr>world := w\<rparr>)))"

definition do_PutObject ::
  "('w, 'f) sys \<Rightarrow> aws_Config \<Rightarrow> 'f PutObjectInput \<Rightarrow> ('w, 'f) state
     \<Rightarrow> error option \<times> ('w, 'f) state" where
  "do_PutObject sys client input st =
     (case PutObject sys client input (world st) of
        (r, w) \<Rightarrow> (r, emit (EvPutObject client input r) (st\<lparr>world := w\<rparr>)))"

definition do_Close :: "('w, 'f) sys \<Rightarrow> 'f \<Rightarrow> ('w, 'f) state \<Rightarrow> ('w, 'f) state" where
  "do_Close sys f st = emit (EvClose f) (st\<lparr>world := Close sys f (world st)\<rparr>)"

subsection \<open>Helpers of the standard library that are plain functions\<close>

text \<open>\<open>strings.HasPrefix(s, prefix)\<close>.\<close>

definition HasPrefix :: "string \<Rightarrow> string \<Rightarrow> bool" where
  "HasPrefix s pre = (length pre \<le> length s \<and> take (length pre) s = pre)"

subsection \<open>\<open>matches\<close>, lines 197 to 228\<close>

text \<open>The loop of lines 209 to 217: every exclude pattern is expanded into the map.\<close>

fun matches_excludem ::
  "('w, 'f) sys \<Rightarrow> string list \<Rightarrow> (string \<rightharpoonup> bool) \<Rightarrow> 'w
     \<Rightarrow> (error + (string \<rightharpoonup> bool)) \<times> 'w" where
  "matches_excludem sys [] excludem w = (Inr excludem, w)"
| "matches_excludem sys (pattern # rest) excludem w =
     (case Glob sys pattern w of
        (Inl err, w') \<Rightarrow> (Inl err, w')
      | (Inr excludes, w') \<Rightarrow>
          matches_excludem sys rest
            (fold (\<lambda>match m. m(match \<mapsto> True)) excludes excludem) w')"

text \<open>The loop of lines 219 to 226.\<close>

fun matches_included :: "string list \<Rightarrow> (string \<rightharpoonup> bool) \<Rightarrow> string list \<Rightarrow> string list" where
  "matches_included [] excludem included = included"
| "matches_included (include # rest) excludem included =
     (case excludem include of
        Some _ \<Rightarrow> matches_included rest excludem included
      | None \<Rightarrow> matches_included rest excludem (included @ [include]))"

definition matches ::
  "('w, 'f) sys \<Rightarrow> string \<Rightarrow> string list \<Rightarrow> 'w \<Rightarrow> (error + string list) \<times> 'w" where
  "matches sys include exclude w =
     (case Glob sys include w of
        (Inl err, w1) \<Rightarrow> (Inl err, w1)
      | (Inr ms, w1) \<Rightarrow>
          if length exclude = 0 then (Inr ms, w1)
          else (case matches_excludem sys exclude Map.empty w1 of
                  (Inl err, w2) \<Rightarrow> (Inl err, w2)
                | (Inr excludem, w2) \<Rightarrow> (Inr (matches_included ms excludem []), w2)))"

subsection \<open>\<open>contentType\<close>, lines 233 to 240\<close>

definition contentType :: "('w, 'f) sys \<Rightarrow> string \<Rightarrow> string" where
  "contentType sys path =
     (let ext = Ext sys path;
          typ = TypeByExtension sys ext
      in if typ = '''' then ''application/octet-stream'' else typ)"

subsection \<open>\<open>Plugin.Exec\<close>, lines 76 to 192\<close>

text \<open>The client of line 78 is determined by its configuration.\<close>

definition newClient :: "Plugin \<Rightarrow> aws_Config" where
  "newClient p =
     \<lparr>cfg_Credentials = (Key p, Secret p, ''''),
      cfg_Region = Region p,
      cfg_Endpoint = Endpoint p,
      cfg_DisableSSL = HasPrefix (Endpoint p) ''http://'',
      cfg_S3ForcePathStyle = PathStyle p\<rparr>"

text \<open>Lines 113 to 116: the key under which a matched path is stored.\<close>

definition targetKey :: "('w, 'f) sys \<Rightarrow> string \<Rightarrow> string \<Rightarrow> string" where
  "targetKey sys t match =
     (let target = Join sys t match
      in if \<not> HasPrefix target ''/'' then ''/'' @ target else target)"

text \<open>How one pass through the body of the loop ends.\<close>

datatype outcome = Continue | Return error

text \<open>
  Lines 147 to 173: the request, and the body it gets. With \<open>Compress\<close> the copy through
  the gzip writer may fail, which is logged.
\<close>

definition prepare ::
  "('w, 'f) sys \<Rightarrow> string \<Rightarrow> string \<Rightarrow> string \<Rightarrow> 'f \<Rightarrow> ('w, 'f) state
     \<Rightarrow> (error + 'f PutObjectInput) \<times> ('w, 'f) state" where
  "prepare sys match target content f st =
     (let input = \<lparr>in_Bucket = Bucket (plugin st),
                   in_Key = target,
                   in_ACL = Access (plugin st),
                   in_ContentType = content,
                   in_Body = None,
                   in_ContentEncoding = None\<rparr>
      in if Compress (plugin st) then
           (case do_Copy sys f st of
              (Inl err, st1) \<Rightarrow>
                (Inl err,
                 emit (EvLog ErrorLevel ''Problem gzipping file''
                         [(''error'', ErrVal err), (''file'', StrVal match)]) st1)
            | (Inr b, st1) \<Rightarrow>
                (Inr (input\<lparr>in_Body := Some (BytesBody (GzipEncode sys b)),
                            in_ContentEncoding := Some ''gzip''\<rparr>), st1))
         else (Inr (input\<lparr>in_Body := Some (FileBody f)\<rparr>), st))"

text \<open>Lines 103 to 188: the body of the loop, for one matched path.\<close>

definition Exec_body ::
  "('w, 'f) sys \<Rightarrow> aws_Config \<Rightarrow> string \<Rightarrow> ('w, 'f) state \<Rightarrow> outcome \<times> ('w, 'f) state" where
  "Exec_body sys client match st =
     (case do_Stat sys match st of
        (Inl err, st1) \<Rightarrow> (Continue, st1)
      | (Inr stat, st1) \<Rightarrow>
          if IsDir stat then (Continue, st1)
          else
            let target = targetKey sys (Target (plugin st1)) match;
                content = contentType sys match;
                st2 = emit (EvLog InfoLevel ''Uploading file''
                              [(''name'', StrVal match),
                               (''bucket'', StrVal (Bucket (plugin st1))),
                               (''target'', StrVal target),
                               (''content-type'', StrVal content)]) st1
            in if DryRun (plugin st2) then (Continue, st2)
               else
                 (case do_Open sys match st2 of
                    (Inl err, st3) \<Rightarrow>
                      (Return err,
                       emit (EvLog ErrorLevel ''Problem opening file''
                               [(''error'', ErrVal err), (''file'', StrVal match)]) st3)
                  | (Inr f, st3) \<Rightarrow>
                      (case prepare sys match target content f
                              (st3\<lparr>deferred := f # deferred st3\<rparr>) of
                         (Inl err, st4) \<Rightarrow> (Return err, st4)
                       | (Inr input, st4) \<Rightarrow>
                           (case do_PutObject sys client input st4 of
                              (Some err, st5) \<Rightarrow>
                                (Return err,
                                 emit (EvLog ErrorLevel ''Could not upload file''
                                         [(''name'', StrVal match),
                                          (''bucket'', StrVal (Bucket (plugin st5))),
                                          (''target'', StrVal target),
                                          (''error'', ErrVal err)]) st5)
                            | (None, st5) \<Rightarrow> (Continue, do_Close sys f st5)))))"

text \<open>Lines 101 to 189: the loop stops at the first \<open>return\<close>.\<close>

fun Exec_loop ::
  "('w, 'f) sys \<Rightarrow> aws_Config \<Rightarrow> string list \<Rightarrow> ('w, 'f) state \<Rightarrow> outcome \<times> ('w, 'f) state" where
  "Exec_loop sys client [] st = (Continue, st)"
| "Exec_loop sys client (match # rest) st =
     (case Exec_body sys client match st of
        (Return err, st') \<Rightarrow> (Return err, st')
      | (Continue, st') \<Rightarrow> Exec_loop sys client rest st')"

text \<open>When \<open>Exec\<close> returns, the deferred calls of \<open>Close\<close> run, the latest first.\<close>

definition run_deferred :: "('w, 'f) sys \<Rightarrow> ('w, 'f) state \<Rightarrow> ('w, 'f) state" where
  "run_deferred sys st = fold (do_Close sys) (deferred st) (st\<lparr>deferred := []\<rparr>)"

text \<open>
  Lines 78 to 91: the state in which a run of \<open>p.Exec()\<close> on configuration \<open>p\<close> in world
  \<open>w\<close> reaches the call of \<open>matches\<close>. Building the client calls nothing outside.
\<close>

definition Exec_init :: "Plugin \<Rightarrow> 'w \<Rightarrow> ('w, 'f) state" where
  "Exec_init p w =
     emit (EvLog InfoLevel ''Attempting to upload''
             [(''region'', StrVal (Region p)),
              (''endpoint'', StrVal (Endpoint p)),
              (''bucket'', StrVal (Bucket p))])
       \<lparr>plugin = p, world = w, trace = [], deferred = []\<rparr>"

text \<open>
  A run of \<open>p.Exec()\<close>. The result is the error returned (\<open>None\<close> for \<open>nil\<close>) and the
  state the run leaves.
\<close>

definition Exec :: "('w, 'f) sys \<Rightarrow> Plugin \<Rightarrow> 'w \<Rightarrow> error option \<times> ('w, 'f) state" where
  "Exec sys p w =
     (let st0 = Exec_init p w;
          client = newClient (plugin st0)
      in case matches sys (Source (plugin st0)) (Exclude (plugin st0)) (world st0) of
           (Inl err, w0) \<Rightarrow>
             (Some err,
              emit (EvLog ErrorLevel ''Could not match files'' [(''error'', ErrVal err)])
                (st0\<lparr>world := w0\<rparr>))
         | (Inr ms, w0) \<Rightarrow>
             (case Exec_loop sys client ms (st0\<lparr>world := w0\<rparr>) of
                (Return err, st') \<Rightarrow> (Some err, run_deferred sys st')
              | (Continue, st') \<Rightarrow> (None, run_deferred sys st')))"

subsection \<open>Notions the properties are stated with\<close>

text \<open>The events a run adds to the trace between two states.\<close>

definition added :: "('w, 'f) state \<Rightarrow> ('w, 'f) state \<Rightarrow> 'f event list" where
  "added st st' = drop (length (trace st)) (trace st')"

text \<open>
  The error of a failed open, copy or write; \<open>None\<close> for every other event, a failed
  \<open>Stat\<close> included.
\<close>

fun failure :: "'f event \<Rightarrow> error option" where
  "failure (EvOpen name (Inl err)) = Some err"
| "failure (EvCopy f (Inl err)) = Some err"
| "failure (EvPutObject client input (Some err)) = Some err"
| "failure ev = None"

fun is_log :: "'f event \<Rightarrow> bool" where
  "is_log (EvLog lv msg kvs) = True"
| "is_log ev = False"

fun is_stat :: "'f event \<Rightarrow> bool" where
  "is_stat (EvStat name r) = True"
| "is_stat ev = False"

fun is_close :: "'f event \<Rightarrow> bool" where
  "is_close (EvClose f) = True"
| "is_close ev = False"

text \<open>
  The expansions of a list of patterns, one after the other, each in the world the
  previous one left.
\<close>

fun glob_each ::
  "('w, 'f) sys \<Rightarrow> string list \<Rightarrow> 'w \<Rightarrow> (error + string list list) \<times> 'w" where
  "glob_each sys [] w = (Inr [], w)"
| "glob_each sys (pattern # rest) w =
     (case Glob sys pattern w of
        (Inl err, w') \<Rightarrow> (Inl err, w')
      | (Inr xs, w') \<Rightarrow>
          (case glob_each sys rest w' of
             (Inl err, w'') \<Rightarrow> (Inl err, w'')
           | (Inr xss, w'') \<Rightarrow> (Inr (xs # xss), w'')))"

text \<open>A string with a doubled leading slash loses one of the two.\<close>

definition single_leading_slash :: "string \<Rightarrow> string" where
  "single_leading_slash s = (if HasPrefix s ''//'' then tl s else s)"

text \<open>The log entry of lines 123 to 128 for a matched path.\<close>

definition uploading :: "('w, 'f) sys \<Rightarrow> Plugin \<Rightarrow> string \<Rightarrow> 'f event" where
  "uploading sys p name =
     EvLog InfoLevel ''Uploading file''
       [(''name'', StrVal name),
        (''bucket'', StrVal (Bucket p)),
        (''target'', StrVal (targetKey sys (Target p) name)),
        (''content-type'', StrVal (contentType sys name))]"

text \<open>
  What a dry run is expected to leave in the trace for a list of matched paths: for each
  path the call of \<open>Stat\<close>, and for each path that is there and is no directory the log
  entry with its key and content type.
\<close>

fun dry_run_events ::
  "('w, 'f) sys \<Rightarrow> Plugin \<Rightarrow> string list \<Rightarrow> 'w \<Rightarrow> 'f event list \<times> 'w" where
  "dry_run_events sys p [] w = ([], w)"
| "dry_run_events sys p (name # rest) w =
     (case Stat sys name w of
        (r, w') \<Rightarrow>
          (case dry_run_events sys p rest w' of
             (evs, w'') \<Rightarrow>
               (EvStat name r #
                (case r of
                   Inl err \<Rightarrow> []
                 | Inr stat \<Rightarrow> if IsDir stat then [] else [uploading sys p name]) @ evs,
                w'')))"

subsection \<open>A small world to run the plugin in\<close>

text \<open>
  Five regular files, a directory and a path that cannot be examined. File handles are
  the paths; the world is the list of requests the store has accepted, the latest first.
  \<open>locked.txt\<close> cannot be opened, \<open>torn.txt\<close> cannot be read to its end, and the store
  refuses \<open>big.bin\<close>. Joining, the extension and the gzip encoding are simple stand-ins
  for the library functions; they serve the examples only, no theorem depends on them.
\<close>

definition demo_Glob :: "string \<Rightarrow> (error + string list)" where
  "demo_Glob pattern =
     (if pattern = ''*.txt'' then Inr [''a.txt'', ''locked.txt'', ''z.txt'']
      else if pattern = ''l*'' then Inr [''locked.txt'']
      else if pattern = ''*'' then Inr [''a.txt'', ''dir'', ''gone'', ''z.txt'']
      else if pattern = ''t*'' then Inr [''a.txt'', ''torn.txt'', ''z.txt'']
      else if pattern = ''*.bin'' then Inr [''big.bin'']
      else if pattern = ''['' then Inl (Err ''syntax error in pattern'')
      else Inr [])"

definition demo_Stat :: "string \<Rightarrow> (error + FileInfo)" where
  "demo_Stat name =
     (if name = ''gone'' then Inl (Err ''no such file or directory'')
      else Inr \<lparr>IsDir = (name = ''dir'')\<rparr>)"

definition demo_Open :: "string \<Rightarrow> (error + string)" where
  "demo_Open name =
     (if name = ''locked.txt'' then Inl (Err ''permission denied'') else Inr name)"

definition demo_ReadAll :: "string \<Rightarrow> (error + byte list)" where
  "demo_ReadAll f =
     (if f = ''torn.txt'' then Inl (Err ''input/output error'')
      else if f = ''a.txt'' then Inr [1, 2, 3]
      else Inr [4])"

definition demo_PutObject ::
  "string PutObjectInput \<Rightarrow> string PutObjectInput list
     \<Rightarrow> error option \<times> string PutObjectInput list" where
  "demo_PutObject input w =
     (if take 7 (rev (in_Key input)) = rev ''big.bin'' then (Some (Err ''EntityTooLarge''), w)
      else (None, input # w))"

definition demo_Ext :: "string \<Rightarrow> string" where
  "demo_Ext path =
     (let base = takeWhile (\<lambda>c. c \<noteq> CHR ''/'') (rev path)
      in if CHR ''.'' \<in> set base
         then CHR ''.'' # rev (takeWhile (\<lambda>c. c \<noteq> CHR ''.'') base)
         else [])"

definition demo_sys :: "(string PutObjectInput list, string) sys" where
  "demo_sys =
     \<lparr>Glob = (\<lambda>pattern w. (demo_Glob pattern, w)),
      Stat = (\<lambda>name w. (demo_Stat name, w)),
      Open = (\<lambda>name w. (demo_Open name, w)),
      ReadAll = (\<lambda>f w. (demo_ReadAll f, w)),
      GzipEncode = (\<lambda>b. 31 # 139 # b),
      Close = (\<lambda>f w. w),
      PutObject = (\<lambda>client. demo_PutObject),
      Join = (\<lambda>t name. if t = [] then name else t @ ''/'' @ name),
      Ext = demo_Ext,
      TypeByExtension =
        (\<lambda>ext. if ext = ''.txt'' then ''text/plain; charset=utf-8'' else [])\<rparr>"

definition demo_plugin :: Plugin where
  "demo_plugin =
     \<lparr>Endpoint = ''http://minio:9000'', Key = ''k'', Secret = ''s'', Bucket = ''b'',
      Region = ''us-east-1'', Access = ''private'', Source = ''*.txt'', Target = ''bundle'',
      Recursive = False, Exclude = [], PathStyle = True, DryRun = False, Compress = False\<rparr>"

section \<open>Properties\<close>

subsection \<open>The matcher\<close>

lemma fold_excludem_dom:
  "dom (fold (\<lambda>match m. m(match \<mapsto> True)) xs m) = dom m \<union> set xs"
  by (induction xs arbitrary: m) auto

lemma matches_excludem_glob_each:
  "glob_each sys ps w = (Inr Es, w') \<Longrightarrow>
   \<exists>m'. matches_excludem sys ps m w = (Inr m', w') \<and> dom m' = dom m \<union> \<Union> (set ` set Es)"
proof (induction ps arbitrary: m w Es)
  case Nil
  then show ?case by simp
next
  case (Cons p ps)
  from Cons.prems obtain xs w1 xss where
    g: "Glob sys p w = (Inr xs, w1)" and r: "glob_each sys ps w1 = (Inr xss, w')"
    and e: "Es = xs # xss"
    by (auto split: prod.splits sum.splits)
  from Cons.IH [OF r, of "fold (\<lambda>match m. m(match \<mapsto> True)) xs m"] g e
  show ?case by (auto simp: fold_excludem_dom)
qed

lemma matches_included_filter:
  "matches_included ms m acc = acc @ filter (\<lambda>x. x \<notin> dom m) ms"
  by (induction ms arbitrary: acc) (auto split: option.splits)

text \<open>
  C1. When the include pattern expands to the list \<open>I\<close> and the exclude patterns, of
  which there is at least one, expand one after the other to the lists \<open>Es\<close>, the matcher
  returns the elements of \<open>I\<close> that occur in none of \<open>Es\<close>, in the order of \<open>I\<close> and as
  often as they occur in \<open>I\<close>.
\<close>

theorem matches_filters_excluded:
  assumes "Glob sys include w = (Inr I, w1)"
      and "exclude \<noteq> []"
      and "glob_each sys exclude w1 = (Inr Es, w2)"
  shows "matches sys include exclude w = (Inr (filter (\<lambda>x. x \<notin> \<Union> (set ` set Es)) I), w2)"
proof -
  from matches_excludem_glob_each [OF assms(3), of Map.empty]
  obtain m' where m: "matches_excludem sys exclude Map.empty w1 = (Inr m', w2)"
    and d: "dom m' = \<Union> (set ` set Es)" by auto
  show ?thesis
    using assms(1,2) m d by (simp add: matches_def matches_included_filter)
qed

theorem matches_filters_excluded_witness:
  "Glob demo_sys ''*.txt'' [] = (Inr [''a.txt'', ''locked.txt'', ''z.txt''], [])
   \<and> glob_each demo_sys [''l*''] [] = (Inr [[''locked.txt'']], [])
   \<and> matches demo_sys ''*.txt'' [''l*''] [] = (Inr [''a.txt'', ''z.txt''], [])"
  using matches_filters_excluded [of demo_sys "''*.txt''" "[]"
      "[''a.txt'', ''locked.txt'', ''z.txt'']" "[]" "[''l*'']" "[[''locked.txt'']]" "[]"]
  by (simp add: demo_sys_def demo_Glob_def)

text \<open>
  C8. With no exclude pattern the matcher returns what the expansion of the include
  pattern returns, unchanged (its error, when the expansion fails).
\<close>

theorem matches_no_exclude:
  "matches sys include [] w = Glob sys include w"
  by (simp add: matches_def split: prod.splits sum.splits)

subsection \<open>Content type and key\<close>

text \<open>
  C6. The content type is never empty, and it is \<open>application/octet-stream\<close> whenever
  the table has no type for the extension of the path. A path without extension is such
  a case when the table has no type for the empty extension, which holds of Go's table:
  all its entries are registered under extensions that begin with a dot.
\<close>

theorem contentType_total:
  "contentType sys path \<noteq> []
   \<and> (TypeByExtension sys (Ext sys path) = []
        \<longrightarrow> contentType sys path = ''application/octet-stream'')
   \<and> (TypeByExtension sys [] = [] \<and> Ext sys path = []
        \<longrightarrow> contentType sys path = ''application/octet-stream'')"
  by (simp add: contentType_def Let_def)

theorem contentType_total_witness:
  "TypeByExtension demo_sys (Ext demo_sys ''file.unknownext'') = []
   \<and> contentType demo_sys ''file.unknownext'' = ''application/octet-stream''
   \<and> TypeByExtension demo_sys [] = [] \<and> Ext demo_sys ''noext'' = []
   \<and> contentType demo_sys ''noext'' = ''application/octet-stream''
   \<and> contentType demo_sys ''a.txt'' \<noteq> []"
  using contentType_total [of demo_sys "''file.unknownext''"]
    contentType_total [of demo_sys "''noext''"]
    contentType_total [of demo_sys "''a.txt''"]
  by (simp add: demo_sys_def demo_Ext_def)

text \<open>
  C5. The key of a matched path \<open>p\<close> under the target prefix \<open>t\<close> starts with a slash,
  and it is the slash followed by the joined path, where a doubled leading slash is
  written once.
\<close>

theorem targetKey_leading_slash:
  "HasPrefix (targetKey sys t p) ''/''
   \<and> targetKey sys t p = single_leading_slash (''/'' @ Join sys t p)"
  by (cases "Join sys t p")
     (auto simp: targetKey_def single_leading_slash_def HasPrefix_def Let_def)

subsection \<open>What a pass through the loop leaves alone\<close>

lemma emit_simps:
  "plugin (emit ev st) = plugin st"
  "world (emit ev st) = world st"
  "trace (emit ev st) = trace st @ [ev]"
  "deferred (emit ev st) = deferred st"
  by (simp_all add: emit_def)

lemmas do_defs = do_Stat_def do_Open_def do_Copy_def do_PutObject_def do_Close_def

lemma prepare_frame:
  assumes "prepare sys m target content f st = (r, st')"
  shows "plugin st' = plugin st" and "deferred st' = deferred st"
    and "\<exists>evs. trace st' = trace st @ evs"
  using assms
  by (auto simp: prepare_def do_defs emit_simps Let_def split: prod.splits sum.splits if_splits)

lemma Exec_body_plugin:
  "Exec_body sys client m st = (out, st') \<Longrightarrow> plugin st' = plugin st"
  by (auto simp: Exec_body_def do_defs emit_simps Let_def dest!: prepare_frame(1)
      split: prod.splits sum.splits option.splits if_splits)

lemma Exec_loop_plugin:
  "Exec_loop sys client ms st = (out, st') \<Longrightarrow> plugin st' = plugin st"
proof (induction ms arbitrary: st)
  case Nil
  then show ?case by simp
next
  case (Cons m ms)
  obtain o1 st1 where b: "Exec_body sys client m st = (o1, st1)"
    by (cases "Exec_body sys client m st")
  show ?case
  proof (cases o1)
    case Continue
    with Cons b show ?thesis by (simp add: Exec_body_plugin)
  next
    case (Return e)
    with Cons.prems b show ?thesis by (simp add: Exec_body_plugin)
  qed
qed

lemma fold_do_Close_plugin:
  "plugin (fold (do_Close sys) fs st) = plugin st"
  by (induction fs arbitrary: st) (simp_all add: do_Close_def emit_simps)

lemma run_deferred_plugin: "plugin (run_deferred sys st) = plugin st"
  by (simp add: run_deferred_def fold_do_Close_plugin)

text \<open>
  C9. A run leaves the configuration as it found it, whether it returns an error or not.
\<close>

theorem Exec_keeps_configuration:
  "plugin (snd (Exec sys p w)) = p"
  by (auto simp: Exec_def Exec_init_def Let_def emit_simps run_deferred_plugin
      dest!: Exec_loop_plugin split: prod.splits sum.splits outcome.splits)

subsection \<open>The passes through the body of the loop, one by one\<close>

lemma trace_added: "trace st' = trace st @ evs \<Longrightarrow> added st st' = evs"
  by (simp add: added_def)

lemma prepare_cases [consumes 1, case_names raw copy_failed gzipped]:
  assumes p: "prepare sys m target content f st = (r, st')"
  obtains
    (raw) input where "\<not> Compress (plugin st)" "r = Inr input" "st' = st"
      "in_Body input = Some (FileBody f)" "in_ContentEncoding input = None"
      "in_Key input = target"
  | (copy_failed) e l where "Compress (plugin st)" "r = Inl e" "is_log l"
      "trace st' = trace st @ [EvCopy f (Inl e), l]"
  | (gzipped) b input where "Compress (plugin st)" "r = Inr input"
      "trace st' = trace st @ [EvCopy f (Inr b)]"
      "in_Body input = Some (BytesBody (GzipEncode sys b))"
      "in_ContentEncoding input = Some ''gzip''" "in_Key input = target"
proof (cases "Compress (plugin st)")
  case False
  with p show ?thesis by (intro raw) (auto simp: prepare_def Let_def)
next
  case True
  obtain r1 w1 where c: "ReadAll sys f (world st) = (r1, w1)"
    by (cases "ReadAll sys f (world st)")
  show ?thesis
  proof (cases r1)
    case (Inl e)
    with p True c show ?thesis
      by (intro copy_failed [of e "EvLog ErrorLevel ''Problem gzipping file''
             [(''error'', ErrVal e), (''file'', StrVal m)]"])
         (auto simp: prepare_def Let_def do_Copy_def emit_simps)
  next
    case (Inr b)
    with p True c show ?thesis
      by (intro gzipped [of _ b]) (auto simp: prepare_def Let_def do_Copy_def emit_simps)
  qed
qed

text \<open>The branches of the body, as equations.\<close>

lemma Exec_body_stat_failed:
  "Stat sys m (world st) = (Inl e, w1) \<Longrightarrow>
   Exec_body sys client m st = (Continue, emit (EvStat m (Inl e)) (st\<lparr>world := w1\<rparr>))"
  by (simp add: Exec_body_def do_Stat_def)

lemma Exec_body_directory:
  "Stat sys m (world st) = (Inr i, w1) \<Longrightarrow> IsDir i \<Longrightarrow>
   Exec_body sys client m st = (Continue, emit (EvStat m (Inr i)) (st\<lparr>world := w1\<rparr>))"
  by (simp add: Exec_body_def do_Stat_def)

lemma Exec_body_dry_run:
  "Stat sys m (world st) = (Inr i, w1) \<Longrightarrow> \<not> IsDir i \<Longrightarrow> DryRun (plugin st) \<Longrightarrow>
   Exec_body sys client m st =
     (Continue, emit (uploading sys (plugin st) m) (emit (EvStat m (Inr i)) (st\<lparr>world := w1\<rparr>)))"
  by (simp add: Exec_body_def do_Stat_def Let_def emit_simps uploading_def)

lemma Exec_body_open_failed:
  "Stat sys m (world st) = (Inr i, w1) \<Longrightarrow> \<not> IsDir i \<Longrightarrow> \<not> DryRun (plugin st) \<Longrightarrow>
   Open sys m w1 = (Inl e, w2) \<Longrightarrow>
   Exec_body sys client m st =
     (Return e, st\<lparr>world := w2,
         trace := trace st @ [EvStat m (Inr i), uploading sys (plugin st) m, EvOpen m (Inl e),
            EvLog ErrorLevel ''Problem opening file''
              [(''error'', ErrVal e), (''file'', StrVal m)]]\<rparr>)"
  by (simp add: Exec_body_def do_Stat_def do_Open_def Let_def emit_def uploading_def)

lemma Exec_body_opened:
  "Stat sys m (world st) = (Inr i, w1) \<Longrightarrow> \<not> IsDir i \<Longrightarrow> \<not> DryRun (plugin st) \<Longrightarrow>
   Open sys m w1 = (Inr f, w2) \<Longrightarrow>
   Exec_body sys client m st =
     (case prepare sys m (targetKey sys (Target (plugin st)) m) (contentType sys m) f
             (st\<lparr>world := w2,
                 trace := trace st @ [EvStat m (Inr i), uploading sys (plugin st) m, EvOpen m (Inr f)],
                 deferred := f # deferred st\<rparr>) of
        (Inl err, st4) \<Rightarrow> (Return err, st4)
      | (Inr input, st4) \<Rightarrow>
          (case PutObject sys client input (world st4) of
             (Some err, w5) \<Rightarrow>
               (Return err,
                st4\<lparr>world := w5,
                    trace := trace st4 @ [EvPutObject client input (Some err),
                       EvLog ErrorLevel ''Could not upload file''
                         [(''name'', StrVal m),
                          (''bucket'', StrVal (Bucket (plugin st4))),
                          (''target'', StrVal (targetKey sys (Target (plugin st)) m)),
                          (''error'', ErrVal err)]]\<rparr>)
           | (None, w5) \<Rightarrow>
               (Continue,
                st4\<lparr>world := Close sys f w5,
                    trace := trace st4 @ [EvPutObject client input None, EvClose f]\<rparr>)))"
  by (simp add: Exec_body_def do_defs Let_def emit_def uploading_def
      split: prod.splits sum.splits option.splits)




lemma Exec_body_cases
  [consumes 1, case_names stat_failed directory dry_run open_failed copy_failed
     put_failed_raw put_failed_gzipped uploaded_raw uploaded_gzipped]:
  assumes b: "Exec_body (sys :: ('w, 'f) sys) client m st = (out, st')"
  obtains
    (stat_failed) e where "out = Continue" "trace st' = trace st @ [EvStat m (Inl e)]"
  | (directory) i where "out = Continue" "trace st' = trace st @ [EvStat m (Inr i)]"
  | (dry_run) i where "DryRun (plugin st)" "out = Continue"
      "trace st' = trace st @ [EvStat m (Inr i), uploading sys (plugin st) m]"
  | (open_failed) i e l where "\<not> DryRun (plugin st)" "out = Return e" "is_log l"
      "trace st' = trace st @ [EvStat m (Inr i), uploading sys (plugin st) m, EvOpen m (Inl e), l]"
  | (copy_failed) i f e l where "\<not> DryRun (plugin st)" "Compress (plugin st)"
      "out = Return e" "is_log l"
      "trace st' = trace st @ [EvStat m (Inr i), uploading sys (plugin st) m, EvOpen m (Inr f),
                              EvCopy f (Inl e), l]"
  | (put_failed_raw) i f input e l where "\<not> DryRun (plugin st)" "\<not> Compress (plugin st)"
      "out = Return e" "is_log l"
      "trace st' = trace st @ [EvStat m (Inr i), uploading sys (plugin st) m, EvOpen m (Inr f),
                              EvPutObject client input (Some e), l]"
      "in_Body input = Some (FileBody f)" "in_ContentEncoding input = None"
      "in_Key input = targetKey sys (Target (plugin st)) m"
  | (put_failed_gzipped) i f b input e l where "\<not> DryRun (plugin st)" "Compress (plugin st)"
      "out = Return e" "is_log l"
      "trace st' = trace st @ [EvStat m (Inr i), uploading sys (plugin st) m, EvOpen m (Inr f),
                              EvCopy f (Inr b), EvPutObject client input (Some e), l]"
      "in_Body input = Some (BytesBody (GzipEncode sys b))"
      "in_ContentEncoding input = Some ''gzip''"
      "in_Key input = targetKey sys (Target (plugin st)) m"
  | (uploaded_raw) i f input where "\<not> DryRun (plugin st)" "\<not> Compress (plugin st)"
      "out = Continue"
      "trace st' = trace st @ [EvStat m (Inr i), uploading sys (plugin st) m, EvOpen m (Inr f),
                              EvPutObject client input None, EvClose f]"
      "in_Body input = Some (FileBody f)" "in_ContentEncoding input = None"
      "in_Key input = targetKey sys (Target (plugin st)) m"
  | (uploaded_gzipped) i f b input where "\<not> DryRun (plugin st)" "Compress (plugin st)"
      "out = Continue"
      "trace st' = trace st @ [EvStat m (Inr i), uploading sys (plugin st) m, EvOpen m (Inr f),
                              EvCopy f (Inr b), EvPutObject client input None, EvClose f]"
      "in_Body input = Some (BytesBody (GzipEncode sys b))"
      "in_ContentEncoding input = Some ''gzip''"
      "in_Key input = targetKey sys (Target (plugin st)) m"
proof -
  obtain r w1 where s: "Stat sys m (world st) = (r, w1)" by (cases "Stat sys m (world st)")
  show ?thesis
  proof (cases r)
    case (Inl e)
    with s b show ?thesis
      by (intro stat_failed [of e]) (auto simp: Exec_body_stat_failed emit_simps)
  next
    case (Inr i)
    note s' = s [unfolded Inr]
    show ?thesis
    proof (cases "IsDir i")
      case True
      with s' b show ?thesis
        by (intro directory [of i]) (auto simp: Exec_body_directory emit_simps)
    next
      case nd: False
      show ?thesis
      proof (cases "DryRun (plugin st)")
        case True
        with nd s' b show ?thesis
          by (intro dry_run [of i]) (auto simp: Exec_body_dry_run emit_simps)
      next
        case nr: False
        obtain ro w2 where op: "Open sys m w1 = (ro, w2)" by (cases "Open sys m w1")
        show ?thesis
        proof (cases ro)
          case (Inl e)
          from Exec_body_open_failed [OF s' nd nr op [unfolded Inl], of client] b nr
          show ?thesis
            by (intro open_failed [of e "EvLog ErrorLevel ''Problem opening file''
                  [(''error'', ErrVal e), (''file'', StrVal m)]" i]) auto
        next
          case (Inr f)
          let ?st3 = "st\<lparr>world := w2,
                 trace := trace st @ [EvStat m (Inr i), uploading sys (plugin st) m, EvOpen m (Inr f)],
                 deferred := f # deferred st\<rparr>"
          let ?key = "targetKey sys (Target (plugin st)) m"
          note eq = Exec_body_opened [OF s' nd nr op [unfolded Inr], of client]
          obtain r4 st4 where p: "prepare sys m ?key (contentType sys m) f ?st3 = (r4, st4)"
            by (cases "prepare sys m ?key (contentType sys m) f ?st3")
          from p show ?thesis
          proof (cases rule: prepare_cases)
            case (copy_failed e l)
            from b eq p copy_failed(2) have "out = Return e" "st' = st4" by auto
            with copy_failed nr show ?thesis
              by (intro that(5) [of e l i f]) simp_all
          next
            case (raw input)
            obtain r5 w5 where put: "PutObject sys client input (world st4) = (r5, w5)"
              by (cases "PutObject sys client input (world st4)")
            show ?thesis
            proof (cases r5)
              case None
              with b eq p raw(2,3) put have "out = Continue"
                "trace st' = trace st4 @ [EvPutObject client input None, EvClose f]" by auto
              with raw nr show ?thesis
                by (intro uploaded_raw [of i f input]) simp_all
            next
              case (Some e)
              define l :: "'f event" where "l = EvLog ErrorLevel ''Could not upload file''
                [(''name'', StrVal m), (''bucket'', StrVal (Bucket (plugin st4))),
                 (''target'', StrVal ?key), (''error'', ErrVal e)]"
              from Some b eq p raw(2,3) put have "out = Return e"
                "trace st' = trace st4 @ [EvPutObject client input (Some e), l]"
                by (auto simp: l_def)
              moreover have "is_log l" by (simp add: l_def)
              ultimately show ?thesis using raw nr
                by (intro put_failed_raw [of e l i f input]) simp_all
            qed
          next
            case (gzipped bs input)
            obtain r5 w5 where put: "PutObject sys client input (world st4) = (r5, w5)"
              by (cases "PutObject sys client input (world st4)")
            show ?thesis
            proof (cases r5)
              case None
              with b eq p gzipped(2) put have "out = Continue"
                "trace st' = trace st4 @ [EvPutObject client input None, EvClose f]" by auto
              with gzipped nr show ?thesis
                by (intro uploaded_gzipped [of i f bs input]) simp_all
            next
              case (Some e)
              define l :: "'f event" where "l = EvLog ErrorLevel ''Could not upload file''
                [(''name'', StrVal m), (''bucket'', StrVal (Bucket (plugin st4))),
                 (''target'', StrVal ?key), (''error'', ErrVal e)]"
              from Some b eq p gzipped(2) put have "out = Return e"
                "trace st' = trace st4 @ [EvPutObject client input (Some e), l]"
                by (auto simp: l_def)
              moreover have "is_log l" by (simp add: l_def)
              ultimately show ?thesis using gzipped nr
                by (intro put_failed_gzipped [of e l i f bs input]) simp_all
            qed
          qed
        qed
      qed
    qed
  qed
qed

lemma is_log_failure: "is_log l \<Longrightarrow> failure l = None"
  by (cases l) simp_all

lemma failure_uploading [simp]: "failure (uploading sys p m) = None"
  by (simp add: uploading_def)

lemma Exec_body_failure:
  assumes b: "Exec_body sys client m st = (out, st')"
      and ev: "ev \<in> set (added st st')" and f: "failure ev = Some err"
  shows "out = Return err
     \<and> (\<exists>evs l. trace st' = trace st @ evs @ [ev, l] \<and> is_log l
           \<and> list_all (\<lambda>e. failure e = None) evs)"
  using b
proof (cases rule: Exec_body_cases)
  case (stat_failed e)
  with ev f show ?thesis by (auto dest!: trace_added)
next
  case (directory i)
  with ev f show ?thesis by (auto dest!: trace_added)
next
  case (dry_run i)
  with ev f show ?thesis by (auto dest!: trace_added)
next
  case (open_failed i e l)
  from trace_added [OF open_failed(4)] ev f open_failed(3)
  have "ev = EvOpen m (Inl e)" "err = e" by (auto simp: is_log_failure)
  with open_failed show ?thesis
    by (intro conjI exI [of _ "[EvStat m (Inr i), uploading sys (plugin st) m]"] exI [of _ l]) simp_all
next
  case (copy_failed i f' e l)
  from trace_added [OF copy_failed(5)] ev f copy_failed(4)
  have "ev = EvCopy f' (Inl e)" "err = e" by (auto simp: is_log_failure)
  with copy_failed show ?thesis
    by (intro conjI exI [of _ "[EvStat m (Inr i), uploading sys (plugin st) m, EvOpen m (Inr f')]"]
          exI [of _ l]) simp_all
next
  case (put_failed_raw i f' input e l)
  from trace_added [OF put_failed_raw(5)] ev f put_failed_raw(4)
  have "ev = EvPutObject client input (Some e)" "err = e" by (auto simp: is_log_failure)
  with put_failed_raw show ?thesis
    by (intro conjI exI [of _ "[EvStat m (Inr i), uploading sys (plugin st) m, EvOpen m (Inr f')]"]
          exI [of _ l]) simp_all
next
  case (put_failed_gzipped i f' bs input e l)
  from trace_added [OF put_failed_gzipped(5)] ev f put_failed_gzipped(4)
  have "ev = EvPutObject client input (Some e)" "err = e" by (auto simp: is_log_failure)
  with put_failed_gzipped show ?thesis
    by (intro conjI exI [of _ "[EvStat m (Inr i), uploading sys (plugin st) m, EvOpen m (Inr f'),
            EvCopy f' (Inr bs)]"] exI [of _ l]) simp_all
next
  case (uploaded_raw i f' input)
  with ev f show ?thesis by (auto dest!: trace_added)
next
  case (uploaded_gzipped i f' bs input)
  with ev f show ?thesis by (auto dest!: trace_added)
qed

lemma Exec_loop_append:
  "Exec_loop sys client (xs @ ys) st =
     (case Exec_loop sys client xs st of
        (Return e, st') \<Rightarrow> (Return e, st')
      | (Continue, st') \<Rightarrow> Exec_loop sys client ys st')"
  by (induction xs arbitrary: st) (auto split: prod.splits outcome.splits)

lemma Exec_init_simps:
  "plugin (Exec_init p w) = p" "world (Exec_init p w) = w" "deferred (Exec_init p w) = []"
  by (simp_all add: Exec_init_def emit_simps)

lemma Exec_of_loop:
  assumes "matches sys (Source p) (Exclude p) w = (Inr ms, w0)"
      and "Exec_loop sys (newClient p) ms ((Exec_init p w)\<lparr>world := w0\<rparr>) = (out, st')"
  shows "Exec sys p w =
           (case out of Continue \<Rightarrow> None | Return e \<Rightarrow> Some e, run_deferred sys st')"
  using assms by (simp add: Exec_def Let_def Exec_init_simps split: outcome.splits)

lemma fold_do_Close_trace:
  "trace (fold (do_Close sys) fs st) = trace st @ map EvClose fs"
  by (induction fs arbitrary: st) (simp_all add: do_Close_def emit_simps)

lemma run_deferred_trace:
  "trace (run_deferred sys st) = trace st @ map EvClose (deferred st)"
  by (simp add: run_deferred_def fold_do_Close_trace)

lemmas demo_defs = demo_sys_def demo_Glob_def demo_Stat_def demo_Open_def demo_ReadAll_def
  demo_PutObject_def demo_Ext_def demo_plugin_def

lemmas run_defs = Exec_def Exec_init_def Exec_body_def prepare_def do_defs emit_def matches_def
  newClient_def HasPrefix_def targetKey_def contentType_def run_deferred_def added_def Let_def

subsection \<open>Failures\<close>

text \<open>
  C4. Let the run have passed the matched paths before \<open>m\<close> without returning, and let
  the open, the copy or the write for \<open>m\<close> fail with \<open>err\<close>. Then the run returns \<open>err\<close>,
  in the state the pass for \<open>m\<close> left (whatever paths follow \<open>m\<close>) but for the deferred
  closes. The trace up to \<open>m\<close> stands, the failed call is the last call of the pass and is
  made once, and only a log entry and the closes follow it.
\<close>

theorem first_failure_ends_run:
  assumes ms: "matches sys (Source p) (Exclude p) w = (Inr (pre @ m # post), w0)"
      and l: "Exec_loop sys (newClient p) pre ((Exec_init p w)\<lparr>world := w0\<rparr>) = (Continue, st1)"
      and b: "Exec_body sys (newClient p) m st1 = (out, st2)"
      and ev: "ev \<in> set (added st1 st2)" and f: "failure ev = Some err"
  shows "Exec sys p w = (Some err, run_deferred sys st2)
     \<and> (\<exists>evs l. trace st2 = trace st1 @ evs @ [ev, l] \<and> is_log l
           \<and> list_all (\<lambda>e. failure e = None) evs)
     \<and> trace (run_deferred sys st2) = trace st2 @ map EvClose (deferred st2)"
proof -
  from Exec_body_failure [OF b ev f] have o: "out = Return err"
    and sh: "\<exists>evs l. trace st2 = trace st1 @ evs @ [ev, l] \<and> is_log l
           \<and> list_all (\<lambda>e. failure e = None) evs" by simp_all
  from l b o have "Exec_loop sys (newClient p) (pre @ m # post) ((Exec_init p w)\<lparr>world := w0\<rparr>)
      = (Return err, st2)" by (simp add: Exec_loop_append)
  from Exec_of_loop [OF ms this] have "Exec sys p w = (Some err, run_deferred sys st2)" by simp
  with sh show ?thesis by (simp add: run_deferred_trace)
qed

theorem first_failure_ends_run_witness:
  "matches demo_sys (Source demo_plugin) (Exclude demo_plugin) []
     = (Inr ([''a.txt''] @ ''locked.txt'' # [''z.txt'']), [])
   \<and> fst (Exec demo_sys demo_plugin []) = Some (Err ''permission denied'')
   \<and> map in_Key (world (snd (Exec demo_sys demo_plugin []))) = [''/bundle/a.txt'']
   \<and> Exec demo_sys (demo_plugin\<lparr>Source := ''*.bin''\<rparr>) [] =
       (Some (Err ''EntityTooLarge''),
        run_deferred demo_sys
          (snd (Exec_body demo_sys (newClient demo_plugin) ''big.bin''
             ((Exec_init (demo_plugin\<lparr>Source := ''*.bin''\<rparr>) [])\<lparr>world := []\<rparr>))))"
  using first_failure_ends_run [of demo_sys demo_plugin "[]" "[''a.txt'']" "''locked.txt''"
      "[''z.txt'']" "[]"
      "snd (Exec_loop demo_sys (newClient demo_plugin) [''a.txt'']
             ((Exec_init demo_plugin [])\<lparr>world := []\<rparr>))"
      "fst (Exec_body demo_sys (newClient demo_plugin) ''locked.txt''
             (snd (Exec_loop demo_sys (newClient demo_plugin) [''a.txt'']
                ((Exec_init demo_plugin [])\<lparr>world := []\<rparr>))))"
      "snd (Exec_body demo_sys (newClient demo_plugin) ''locked.txt''
             (snd (Exec_loop demo_sys (newClient demo_plugin) [''a.txt'']
                ((Exec_init demo_plugin [])\<lparr>world := []\<rparr>))))"
      "EvOpen ''locked.txt'' (Inl (Err ''permission denied''))" "Err ''permission denied''"]
    first_failure_ends_run [of demo_sys "demo_plugin\<lparr>Source := ''*.bin''\<rparr>" "[]" "[]"
      "''big.bin''" "[]" "[]"
      "(Exec_init (demo_plugin\<lparr>Source := ''*.bin''\<rparr>) [])\<lparr>world := []\<rparr>"
      "fst (Exec_body demo_sys (newClient demo_plugin) ''big.bin''
             ((Exec_init (demo_plugin\<lparr>Source := ''*.bin''\<rparr>) [])\<lparr>world := []\<rparr>))"
      "snd (Exec_body demo_sys (newClient demo_plugin) ''big.bin''
             ((Exec_init (demo_plugin\<lparr>Source := ''*.bin''\<rparr>) [])\<lparr>world := []\<rparr>))"
      "EvPutObject (newClient demo_plugin)
         \<lparr>in_Bucket = ''b'', in_Key = ''/bundle/big.bin'', in_ACL = ''private'',
          in_ContentType = ''application/octet-stream'',
          in_Body = Some (FileBody ''big.bin''), in_ContentEncoding = None\<rparr>
         (Some (Err ''EntityTooLarge''))" "Err ''EntityTooLarge''"]
  by (simp add: demo_defs run_defs)

text \<open>
  C7. Let the run have passed the matched paths before \<open>m\<close> without returning, and let
  \<open>Stat\<close> fail for \<open>m\<close>. Then the pass for \<open>m\<close> records the call and nothing else, no log
  entry either, and goes on; the run ends as the loop over the paths after \<open>m\<close> ends.
\<close>

theorem stat_failure_skipped:
  assumes ms: "matches sys (Source p) (Exclude p) w = (Inr (pre @ m # rest), w0)"
      and l: "Exec_loop sys (newClient p) pre ((Exec_init p w)\<lparr>world := w0\<rparr>) = (Continue, st1)"
      and s: "Stat sys m (world st1) = (Inl err, w')"
  shows "Exec_body sys (newClient p) m st1 = (Continue, emit (EvStat m (Inl err)) (st1\<lparr>world := w'\<rparr>))
     \<and> Exec sys p w =
         (case Exec_loop sys (newClient p) rest (emit (EvStat m (Inl err)) (st1\<lparr>world := w'\<rparr>)) of
            (Return e, st') \<Rightarrow> (Some e, run_deferred sys st')
          | (Continue, st') \<Rightarrow> (None, run_deferred sys st'))"
proof -
  let ?st2 = "emit (EvStat m (Inl err)) (st1\<lparr>world := w'\<rparr>)"
  have b: "Exec_body sys (newClient p) m st1 = (Continue, ?st2)"
    using s by (rule Exec_body_stat_failed)
  obtain out st' where r: "Exec_loop sys (newClient p) rest ?st2 = (out, st')"
    by (cases "Exec_loop sys (newClient p) rest ?st2")
  with l b have "Exec_loop sys (newClient p) (pre @ m # rest) ((Exec_init p w)\<lparr>world := w0\<rparr>)
      = (out, st')" by (simp add: Exec_loop_append)
  from Exec_of_loop [OF ms this] b r show ?thesis by (simp split: outcome.splits)
qed

theorem stat_failure_skipped_witness:
  "matches demo_sys ''*'' [] [] = (Inr ([''a.txt'', ''dir''] @ ''gone'' # [''z.txt'']), [])
   \<and> fst (Stat demo_sys ''gone'' []) = Inl (Err ''no such file or directory'')
   \<and> fst (Exec demo_sys (demo_plugin\<lparr>Source := ''*''\<rparr>) []) = None
   \<and> map in_Key (world (snd (Exec demo_sys (demo_plugin\<lparr>Source := ''*''\<rparr>) [])))
       = [''/bundle/z.txt'', ''/bundle/a.txt'']"
  using stat_failure_skipped [of demo_sys "demo_plugin\<lparr>Source := ''*''\<rparr>" "[]"
      "[''a.txt'', ''dir'']" "''gone''" "[''z.txt'']" "[]"
      "snd (Exec_loop demo_sys (newClient (demo_plugin\<lparr>Source := ''*''\<rparr>)) [''a.txt'', ''dir'']
             ((Exec_init (demo_plugin\<lparr>Source := ''*''\<rparr>) [])\<lparr>world := []\<rparr>))"
      "Err ''no such file or directory''"
      "world (snd (Exec_loop demo_sys (newClient (demo_plugin\<lparr>Source := ''*''\<rparr>)) [''a.txt'', ''dir'']
             ((Exec_init (demo_plugin\<lparr>Source := ''*''\<rparr>) [])\<lparr>world := []\<rparr>)))"]
  by (simp add: demo_defs run_defs)

subsection \<open>Dry runs\<close>

lemma Exec_loop_dry_run:
  assumes "DryRun (plugin st)"
  shows "Exec_loop sys client ms st =
     (Continue, st\<lparr>world := snd (dry_run_events sys (plugin st) ms (world st)),
                  trace := trace st @ fst (dry_run_events sys (plugin st) ms (world st))\<rparr>)"
  using assms
proof (induction ms arbitrary: st)
  case Nil
  then show ?case by simp
next
  case (Cons m ms)
  obtain r w1 where s: "Stat sys m (world st) = (r, w1)" by (cases "Stat sys m (world st)")
  obtain evs w2 where d: "dry_run_events sys (plugin st) ms w1 = (evs, w2)"
    by (cases "dry_run_events sys (plugin st) ms w1")
  show ?case
  proof (cases r)
    case (Inl e)
    from s Inl have b: "Exec_body sys client m st = (Continue, emit (EvStat m (Inl e)) (st\<lparr>world := w1\<rparr>))"
      by (simp add: Exec_body_stat_failed)
    from Cons.prems have "DryRun (plugin (emit (EvStat m (Inl e)) (st\<lparr>world := w1\<rparr>)))"
      by (simp add: emit_simps)
    from Cons.IH [OF this] b s d Inl show ?thesis by (simp add: emit_simps emit_def)
  next
    case (Inr i)
    show ?thesis
    proof (cases "IsDir i")
      case True
      with s Inr have b: "Exec_body sys client m st = (Continue, emit (EvStat m (Inr i)) (st\<lparr>world := w1\<rparr>))"
        by (simp add: Exec_body_directory)
      from Cons.prems have "DryRun (plugin (emit (EvStat m (Inr i)) (st\<lparr>world := w1\<rparr>)))"
        by (simp add: emit_simps)
      from Cons.IH [OF this] b s d Inr True show ?thesis by (simp add: emit_simps emit_def)
    next
      case False
      with s Inr Cons.prems have b: "Exec_body sys client m st =
          (Continue, emit (uploading sys (plugin st) m) (emit (EvStat m (Inr i)) (st\<lparr>world := w1\<rparr>)))"
        by (simp add: Exec_body_dry_run)
      from Cons.prems have "DryRun (plugin (emit (uploading sys (plugin st) m) (emit (EvStat m (Inr i)) (st\<lparr>world := w1\<rparr>))))"
        by (simp add: emit_simps)
      from Cons.IH [OF this] b s d Inr False show ?thesis by (simp add: emit_simps emit_def)
    qed
  qed
qed

lemma dry_run_events_kinds:
  "list_all (\<lambda>ev. is_stat ev \<or> is_log ev) (fst (dry_run_events sys p ms w))"
proof (induction ms arbitrary: w)
  case Nil
  show ?case by simp
next
  case (Cons m ms)
  obtain r w1 where s: "Stat sys m w = (r, w1)" by (cases "Stat sys m w")
  obtain evs w2 where d: "dry_run_events sys p ms w1 = (evs, w2)"
    by (cases "dry_run_events sys p ms w1")
  from Cons.IH [of w1] d have "list_all (\<lambda>ev. is_stat ev \<or> is_log ev) evs" by simp
  with s d show ?case by (cases r) (simp_all add: uploading_def)
qed

text \<open>
  C3. A dry run, whatever the other settings, records calls of \<open>Stat\<close> and log entries
  only: it opens no file, copies none and sends no request. When the matcher fails the
  run returns its error; otherwise it returns no error and its trace is the first log
  entry followed, for every matched path in order, by the call of \<open>Stat\<close> and, when the
  path is there and is no directory, the log entry with its key and content type.
\<close>

theorem dry_run_opens_and_writes_nothing:
  assumes "DryRun p"
  shows "list_all (\<lambda>ev. is_stat ev \<or> is_log ev) (trace (snd (Exec sys p w)))
     \<and> (case matches sys (Source p) (Exclude p) w of
          (Inl err, w0) \<Rightarrow> fst (Exec sys p w) = Some err
        | (Inr ms, w0) \<Rightarrow>
            Exec sys p w =
              (None, \<lparr>plugin = p, world = snd (dry_run_events sys p ms w0),
                      trace = trace (Exec_init p w) @ fst (dry_run_events sys p ms w0),
                      deferred = []\<rparr>))"
proof (cases "matches sys (Source p) (Exclude p) w")
  case (Pair r w0)
  show ?thesis
  proof (cases r)
    case (Inl err)
    with Pair show ?thesis
      by (simp add: Exec_def Let_def Exec_init_def emit_def)
  next
    case (Inr ms)
    have d: "DryRun (plugin ((Exec_init p w)\<lparr>world := w0\<rparr>))"
      using assms by (simp add: Exec_init_simps)
    from Exec_of_loop [OF Pair [unfolded Inr] Exec_loop_dry_run [OF d]]
    have e: "Exec sys p w =
              (None, \<lparr>plugin = p, world = snd (dry_run_events sys p ms w0),
                      trace = trace (Exec_init p w) @ fst (dry_run_events sys p ms w0),
                      deferred = []\<rparr>)"
      by (simp add: Exec_init_simps run_deferred_def Exec_init_def emit_def)
    have "list_all (\<lambda>ev. is_stat ev \<or> is_log ev) (trace (Exec_init p w))"
      by (simp add: Exec_init_def emit_def)
    with e Pair Inr dry_run_events_kinds [of sys p ms w0] show ?thesis by simp
  qed
qed

theorem dry_run_opens_and_writes_nothing_witness:
  "DryRun (demo_plugin\<lparr>Source := ''*'', DryRun := True, Compress := True\<rparr>)
   \<and> fst (Exec demo_sys (demo_plugin\<lparr>Source := ''*'', DryRun := True, Compress := True\<rparr>) [])
       = None
   \<and> world (snd (Exec demo_sys
         (demo_plugin\<lparr>Source := ''*'', DryRun := True, Compress := True\<rparr>) [])) = []
   \<and> filter (\<lambda>ev. \<not> is_log ev) (trace (snd (Exec demo_sys
         (demo_plugin\<lparr>Source := ''*'', DryRun := True, Compress := True\<rparr>) [])))
       = [EvStat ''a.txt'' (Inr \<lparr>IsDir = False\<rparr>), EvStat ''dir'' (Inr \<lparr>IsDir = True\<rparr>),
          EvStat ''gone'' (Inl (Err ''no such file or directory'')),
          EvStat ''z.txt'' (Inr \<lparr>IsDir = False\<rparr>)]"
  using dry_run_opens_and_writes_nothing
    [of "demo_plugin\<lparr>Source := ''*'', DryRun := True, Compress := True\<rparr>" demo_sys "[]"]
  by (simp add: demo_defs matches_def Exec_init_def emit_def uploading_def)

subsection \<open>The field \<open>Recursive\<close>\<close>

lemma prepare_Recursive:
  "prepare sys m target content f (st\<lparr>plugin := (plugin st)\<lparr>Recursive := b\<rparr>\<rparr>) =
     (case prepare sys m target content f st of
        (r, st') \<Rightarrow> (r, st'\<lparr>plugin := (plugin st')\<lparr>Recursive := b\<rparr>\<rparr>))"
  by (simp add: prepare_def do_Copy_def emit_def Let_def split: prod.splits sum.splits)

lemma Exec_body_Recursive:
  "Exec_body sys client m (st\<lparr>plugin := (plugin st)\<lparr>Recursive := b\<rparr>\<rparr>) =
     (case Exec_body sys client m st of
        (out, st') \<Rightarrow> (out, st'\<lparr>plugin := (plugin st')\<lparr>Recursive := b\<rparr>\<rparr>))"
proof -
  obtain r w1 where s: "Stat sys m (world st) = (r, w1)" by (cases "Stat sys m (world st)")
  show ?thesis
  proof (cases r)
    case (Inl e)
    with s show ?thesis by (simp add: Exec_body_def do_Stat_def emit_def)
  next
    case (Inr i)
    obtain ro w2 where op: "Open sys m w1 = (ro, w2)" by (cases "Open sys m w1")
    show ?thesis
    proof (cases ro)
      case (Inl e)
      with s Inr op show ?thesis
        by (simp add: Exec_body_def do_Stat_def do_Open_def emit_def Let_def)
    next
      case f: (Inr f)
      let ?st3 = "st\<lparr>world := w2,
           trace := trace st @ [EvStat m (Inr i), uploading sys (plugin st) m, EvOpen m (Inr f)],
           deferred := f # deferred st\<rparr>"
      have e: "?st3\<lparr>plugin := (plugin ?st3)\<lparr>Recursive := b\<rparr>\<rparr> =
            st\<lparr>plugin := (plugin st)\<lparr>Recursive := b\<rparr>, world := w2,
           trace := trace st @ [EvStat m (Inr i), uploading sys (plugin st) m, EvOpen m (Inr f)],
           deferred := f # deferred st\<rparr>" by simp
      obtain r4 st4 where p: "prepare sys m (targetKey sys (Target (plugin st)) m) (contentType sys m)
             f ?st3 = (r4, st4)"
        by (cases "prepare sys m (targetKey sys (Target (plugin st)) m) (contentType sys m) f ?st3")
      from prepare_Recursive [where st = ?st3 and b = b and sys = sys and m = m and f = f, unfolded e] p
      have p': "prepare sys m (targetKey sys (Target (plugin st)) m) (contentType sys m) f
           (st\<lparr>plugin := (plugin st)\<lparr>Recursive := b\<rparr>, world := w2,
           trace := trace st @ [EvStat m (Inr i), uploading sys (plugin st) m, EvOpen m (Inr f)],
           deferred := f # deferred st\<rparr>) = (r4, st4\<lparr>plugin := (plugin st4)\<lparr>Recursive := b\<rparr>\<rparr>)"
        by simp
      from s Inr op f p p' show ?thesis
        by (simp add: Exec_body_def do_Stat_def do_Open_def do_PutObject_def do_Close_def
            emit_def Let_def uploading_def split: prod.splits sum.splits option.splits)
    qed
  qed
qed


lemma Exec_loop_Recursive:
  "Exec_loop sys client ms (st\<lparr>plugin := (plugin st)\<lparr>Recursive := b\<rparr>\<rparr>) =
     (case Exec_loop sys client ms st of
        (out, st') \<Rightarrow> (out, st'\<lparr>plugin := (plugin st')\<lparr>Recursive := b\<rparr>\<rparr>))"
proof (induction ms arbitrary: st)
  case Nil
  show ?case by simp
next
  case (Cons m ms)
  obtain o1 st1 where b1: "Exec_body sys client m st = (o1, st1)"
    by (cases "Exec_body sys client m st")
  with Exec_body_Recursive [where sys = sys and client = client and m = m and st = st and b = b]
  have b2: "Exec_body sys client m (st\<lparr>plugin := (plugin st)\<lparr>Recursive := b\<rparr>\<rparr>) =
      (o1, st1\<lparr>plugin := (plugin st1)\<lparr>Recursive := b\<rparr>\<rparr>)" by simp
  show ?case
  proof (cases o1)
    case Continue
    with b1 b2 Cons.IH [where st = st1] show ?thesis by simp
  next
    case (Return e)
    with b1 b2 show ?thesis by simp
  qed
qed

lemma fold_do_Close_Recursive:
  "fold (do_Close sys) fs (st\<lparr>plugin := (plugin st)\<lparr>Recursive := b\<rparr>\<rparr>) =
     (fold (do_Close sys) fs st)\<lparr>plugin := (plugin (fold (do_Close sys) fs st))\<lparr>Recursive := b\<rparr>\<rparr>"
proof (induction fs arbitrary: st)
  case Nil
  show ?case by simp
next
  case (Cons f fs)
  have "do_Close sys f (st\<lparr>plugin := (plugin st)\<lparr>Recursive := b\<rparr>\<rparr>) =
        (do_Close sys f st)\<lparr>plugin := (plugin (do_Close sys f st))\<lparr>Recursive := b\<rparr>\<rparr>"
    by (simp add: do_Close_def emit_def)
  with Cons.IH [where st = "do_Close sys f st"] show ?case by simp
qed

lemma run_deferred_Recursive:
  "run_deferred sys (st\<lparr>plugin := (plugin st)\<lparr>Recursive := b\<rparr>\<rparr>) =
     (run_deferred sys st)\<lparr>plugin := (plugin (run_deferred sys st))\<lparr>Recursive := b\<rparr>\<rparr>"
proof -
  have 1: "deferred (st\<lparr>plugin := (plugin st)\<lparr>Recursive := b\<rparr>\<rparr>) = deferred st" by simp
  have 2: "(st\<lparr>plugin := (plugin st)\<lparr>Recursive := b\<rparr>\<rparr>)\<lparr>deferred := []\<rparr> =
        (st\<lparr>deferred := []\<rparr>)\<lparr>plugin := (plugin (st\<lparr>deferred := []\<rparr>))\<lparr>Recursive := b\<rparr>\<rparr>"
    by simp
  show ?thesis
    unfolding run_deferred_def 1 2 by (rule fold_do_Close_Recursive)
qed

lemma Exec_Recursive:
  "Exec (sys :: ('w, 'f) sys) (p\<lparr>Recursive := b\<rparr>) w =
     (case Exec sys p w of (r, st) \<Rightarrow> (r, st\<lparr>plugin := (plugin st)\<lparr>Recursive := b\<rparr>\<rparr>))"
proof -
  have c: "newClient (p\<lparr>Recursive := b\<rparr>) = newClient p" by (simp add: newClient_def)
  obtain r w0 where m: "matches sys (Source p) (Exclude p) w = (r, w0)"
    by (cases "matches sys (Source p) (Exclude p) w")
  show ?thesis
  proof (cases r)
    case (Inl err)
    with m show ?thesis by (simp add: Exec_def Let_def Exec_init_def emit_def)
  next
    case (Inr ms)
    let ?st0 = "(Exec_init p w :: ('w, 'f) state)\<lparr>world := w0\<rparr>"
    obtain out st' where l: "Exec_loop sys (newClient p) ms ?st0 = (out, st')"
      by (cases "Exec_loop sys (newClient p) ms ?st0")
    have s: "(Exec_init (p\<lparr>Recursive := b\<rparr>) w)\<lparr>world := w0\<rparr> =
          ?st0\<lparr>plugin := (plugin ?st0)\<lparr>Recursive := b\<rparr>\<rparr>"
      by (simp add: Exec_init_def emit_def)
    have "Exec_loop sys (newClient p) ms (?st0\<lparr>plugin := (plugin ?st0)\<lparr>Recursive := b\<rparr>\<rparr>) =
         (case Exec_loop sys (newClient p) ms ?st0 of
            (out, st') \<Rightarrow> (out, st'\<lparr>plugin := (plugin st')\<lparr>Recursive := b\<rparr>\<rparr>))"
      by (rule Exec_loop_Recursive)
    then have l'': "Exec_loop sys (newClient p) ms (?st0\<lparr>plugin := (plugin ?st0)\<lparr>Recursive := b\<rparr>\<rparr>) =
         (out, st'\<lparr>plugin := (plugin st')\<lparr>Recursive := b\<rparr>\<rparr>)"
      by (simp only: l prod.case)
    have l': "Exec_loop sys (newClient (p\<lparr>Recursive := b\<rparr>)) ms
         ((Exec_init (p\<lparr>Recursive := b\<rparr>) w)\<lparr>world := w0\<rparr>) =
         (out, st'\<lparr>plugin := (plugin st')\<lparr>Recursive := b\<rparr>\<rparr>)"
      unfolding s c by (rule l'')
    have m': "matches sys (Source (p\<lparr>Recursive := b\<rparr>)) (Exclude (p\<lparr>Recursive := b\<rparr>)) w
        = (Inr ms, w0)" using m Inr by simp
    from Exec_of_loop [OF m' l'] Exec_of_loop [OF m [unfolded Inr] l]
    show ?thesis by (simp add: run_deferred_Recursive)
  qed
qed

text \<open>
  C10. Two runs in the same world whose configurations differ in \<open>Recursive\<close> only
  have the same matches, return the same result and leave the same trace (so the same
  requests in the same order) and the same world.
\<close>

theorem Recursive_has_no_effect:
  "matches sys (Source (p\<lparr>Recursive := b\<rparr>)) (Exclude (p\<lparr>Recursive := b\<rparr>)) w
     = matches sys (Source p) (Exclude p) w
   \<and> fst (Exec sys (p\<lparr>Recursive := b\<rparr>) w) = fst (Exec sys p w)
   \<and> trace (snd (Exec sys (p\<lparr>Recursive := b\<rparr>) w)) = trace (snd (Exec sys p w))
   \<and> world (snd (Exec sys (p\<lparr>Recursive := b\<rparr>) w)) = world (snd (Exec sys p w))"
  by (simp add: Exec_Recursive split: prod.splits)

subsection \<open>Where the events of a run come from\<close>

lemma Exec_body_trace: 
  "Exec_body sys client m st = (out, st') \<Longrightarrow> \<exists>evs. trace st' = trace st @ evs"
  by (cases rule: Exec_body_cases) auto

lemma Exec_loop_trace:
  "Exec_loop sys client ms st = (out, st') \<Longrightarrow> \<exists>evs. trace st' = trace st @ evs"
proof (induction ms arbitrary: st)
  case Nil
  then show ?case by simp
next
  case (Cons m ms)
  obtain o1 st1 where b: "Exec_body sys client m st = (o1, st1)"
    by (cases "Exec_body sys client m st")
  from Exec_body_trace [OF b] obtain evs1 where t1: "trace st1 = trace st @ evs1" ..
  show ?case
  proof (cases o1)
    case Continue
    with Cons.prems b have "Exec_loop sys client ms st1 = (out, st')" by simp
    from Cons.IH [OF this] obtain evs2 where "trace st' = trace st1 @ evs2" ..
    with t1 have "trace st' = trace st @ (evs1 @ evs2)" by simp
    then show ?thesis ..
  next
    case (Return e)
    with Cons.prems b have "st' = st1" by simp
    with t1 show ?thesis by blast
  qed
qed

text \<open>Every event the loop adds was added by the pass for one of the paths.\<close>

lemma Exec_loop_event_origin:
  assumes "Exec_loop sys client ms st = (out, st')" and "ev \<in> set (added st st')"
  shows "\<exists>pre m post st1 o2 st2 xs ys.
           ms = pre @ m # post
         \<and> Exec_loop sys client pre st = (Continue, st1)
         \<and> Exec_body sys client m st1 = (o2, st2)
         \<and> ev \<in> set (added st1 st2)
         \<and> trace st1 = trace st @ xs \<and> trace st' = trace st2 @ ys
         \<and> plugin st1 = plugin st
         \<and> (o2 = Continue \<or> out = o2)"
  using assms
proof (induction ms arbitrary: st)
  case Nil
  then show ?case by (simp add: added_def)
next
  case (Cons m ms)
  obtain o1 s1 where b: "Exec_body sys client m st = (o1, s1)"
    by (cases "Exec_body sys client m st")
  from Exec_body_trace [OF b] obtain e1 where t1: "trace s1 = trace st @ e1" ..
  have here: ?case if "ev \<in> set e1" and "trace st' = trace s1 @ ys" and "o1 = Continue \<or> out = o1" for ys
  proof -
    from that(1) t1 have "ev \<in> set (added st s1)" by (simp add: added_def)
    with b that(2,3) show ?thesis
      by (intro exI [of _ "[]"] exI [of _ m] exI [of _ ms] exI [of _ st] exI [of _ o1]
            exI [of _ s1] exI [of _ ys]) simp
  qed
  show ?case
  proof (cases o1)
    case (Return e)
    with Cons.prems(1) b have "st' = s1" "out = o1" by simp_all
    moreover from Cons.prems(2) t1 \<open>st' = s1\<close> have "ev \<in> set e1" by (simp add: added_def)
    ultimately show ?thesis using here [of "[]"] by simp
  next
    case Continue
    with Cons.prems(1) b have l: "Exec_loop sys client ms s1 = (out, st')" by simp
    from Exec_loop_trace [OF l] obtain e2 where t2: "trace st' = trace s1 @ e2" ..
    from Cons.prems(2) t1 t2 have "ev \<in> set e1 \<or> ev \<in> set e2" by (simp add: added_def)
    then show ?thesis
    proof
      assume "ev \<in> set e1"
      with t2 Continue show ?thesis using here [of e2] by simp
    next
      assume "ev \<in> set e2"
      with t2 have "ev \<in> set (added s1 st')" by (simp add: added_def)
      from Cons.IH [OF l this] obtain pre m' post st1 o2 st2 xs ys where
        ms: "ms = pre @ m' # post" and l1: "Exec_loop sys client pre s1 = (Continue, st1)"
        and b2: "Exec_body sys client m' st1 = (o2, st2)" and ev: "ev \<in> set (added st1 st2)"
        and x: "trace st1 = trace s1 @ xs" and y: "trace st' = trace st2 @ ys"
        and p: "plugin st1 = plugin s1" and o: "o2 = Continue \<or> out = o2" by blast
      from l1 b Continue have l1': "Exec_loop sys client (m # pre) st = (Continue, st1)" by simp
      from x t1 have x': "trace st1 = trace st @ (e1 @ xs)" by simp
      from p Exec_body_plugin [OF b] have p': "plugin st1 = plugin st" by simp
      from ms l1' b2 ev x' y p' o show ?thesis
        by (intro exI [of _ "m # pre"] exI [of _ m'] exI [of _ post] exI [of _ st1] exI [of _ o2]
            exI [of _ st2] exI [of _ "e1 @ xs"] exI [of _ ys]) simp
    qed
  qed
qed

lemma Exec_body_added:
  "Exec_body sys client m st = (out, st') \<Longrightarrow> trace st' = trace st @ added st st'"
proof -
  assume "Exec_body sys client m st = (out, st')"
  from Exec_body_trace [OF this] obtain evs where t: "trace st' = trace st @ evs" ..
  from trace_added [OF t] t show ?thesis by simp
qed

lemma Exec_body_put_gzipped:
  assumes b: "Exec_body sys client m st = (out, st')"
      and ev: "EvPutObject c input r \<in> set (added st st')" and z: "Compress (plugin st)"
  shows "\<exists>xs ys f bs.
           added st st' = xs @ [EvOpen m (Inr f), EvCopy f (Inr bs), EvPutObject c input r] @ ys
         \<and> in_Body input = Some (BytesBody (GzipEncode sys bs))
         \<and> in_ContentEncoding input = Some ''gzip''"
  using b
proof (cases rule: Exec_body_cases)
  case (stat_failed e)
  with ev show ?thesis by (auto dest!: trace_added)
next
  case (directory i)
  with ev show ?thesis by (auto dest!: trace_added)
next
  case (dry_run i)
  with ev show ?thesis by (auto simp: uploading_def dest!: trace_added)
next
  case (open_failed i e l)
  with ev show ?thesis by (cases l) (auto simp: uploading_def dest!: trace_added)
next
  case (copy_failed i f e l)
  with ev show ?thesis by (cases l) (auto simp: uploading_def dest!: trace_added)
next
  case (put_failed_raw i f input' e l)
  with z show ?thesis by simp
next
  case (uploaded_raw i f input')
  with z show ?thesis by simp
next
  case (put_failed_gzipped i f bs input' e l)
  from trace_added [OF put_failed_gzipped(5)] ev put_failed_gzipped(4)
  have "c = client" "input = input'" "r = Some e"
    by (cases l; auto simp: uploading_def)+
  with put_failed_gzipped trace_added [OF put_failed_gzipped(5)] show ?thesis
    by (intro exI [of _ "[EvStat m (Inr i), uploading sys (plugin st) m]"] exI [of _ "[l]"]
          exI [of _ f] exI [of _ bs]) simp
next
  case (uploaded_gzipped i f bs input')
  from trace_added [OF uploaded_gzipped(4)] ev
  have "c = client" "input = input'" "r = None"
    by (auto simp: uploading_def)
  with uploaded_gzipped trace_added [OF uploaded_gzipped(4)] show ?thesis
    by (intro exI [of _ "[EvStat m (Inr i), uploading sys (plugin st) m]"] exI [of _ "[EvClose f]"]
          exI [of _ f] exI [of _ bs]) simp
qed

lemma Exec_body_put_raw:
  assumes b: "Exec_body sys client m st = (out, st')"
      and ev: "EvPutObject c input r \<in> set (added st st')" and z: "\<not> Compress (plugin st)"
  shows "\<exists>xs ys f.
           added st st' = xs @ [EvOpen m (Inr f), EvPutObject c input r] @ ys
         \<and> in_Body input = Some (FileBody f)
         \<and> in_ContentEncoding input = None"
  using b
proof (cases rule: Exec_body_cases)
  case (stat_failed e)
  with ev show ?thesis by (auto dest!: trace_added)
next
  case (directory i)
  with ev show ?thesis by (auto dest!: trace_added)
next
  case (dry_run i)
  with ev show ?thesis by (auto simp: uploading_def dest!: trace_added)
next
  case (open_failed i e l)
  with ev show ?thesis by (cases l) (auto simp: uploading_def dest!: trace_added)
next
  case (copy_failed i f e l)
  with z show ?thesis by simp
next
  case (put_failed_gzipped i f bs input' e l)
  with z show ?thesis by simp
next
  case (uploaded_gzipped i f bs input')
  with z show ?thesis by simp
next
  case (put_failed_raw i f input' e l)
  from trace_added [OF put_failed_raw(5)] ev put_failed_raw(4)
  have "c = client" "input = input'" "r = Some e"
    by (cases l; auto simp: uploading_def)+
  with put_failed_raw trace_added [OF put_failed_raw(5)] show ?thesis
    by (intro exI [of _ "[EvStat m (Inr i), uploading sys (plugin st) m]"] exI [of _ "[l]"]
          exI [of _ f]) simp
next
  case (uploaded_raw i f input')
  from trace_added [OF uploaded_raw(4)] ev
  have "c = client" "input = input'" "r = None"
    by (auto simp: uploading_def)
  with uploaded_raw trace_added [OF uploaded_raw(4)] show ?thesis
    by (intro exI [of _ "[EvStat m (Inr i), uploading sys (plugin st) m]"] exI [of _ "[EvClose f]"]
          exI [of _ f]) simp
qed


text \<open>The shape of the trace of a run.\<close>

lemma Exec_trace_cases [case_names no_matches looped]:
  fixes sys :: "('w, 'f) sys"
  obtains
    (no_matches) err l1 l2 where "fst (Exec sys p w) = Some err"
      "trace (snd (Exec sys p w)) = [l1, l2]" "is_log l1" "is_log l2"
  | (looped) ms w0 out st' l1 where
      "matches sys (Source p) (Exclude p) w = (Inr ms, w0)"
      "Exec_loop sys (newClient p) ms ((Exec_init p w)\<lparr>world := w0\<rparr>) = (out, st')"
      "fst (Exec sys p w) = (case out of Continue \<Rightarrow> None | Return e \<Rightarrow> Some e)"
      "trace ((Exec_init p w :: ('w, 'f) state)\<lparr>world := w0\<rparr>) = [l1]" "is_log l1"
      "trace (snd (Exec sys p w)) = trace st' @ map EvClose (deferred st')"
proof -
  obtain r w0 where m: "matches sys (Source p) (Exclude p) w = (r, w0)"
    by (cases "matches sys (Source p) (Exclude p) w")
  show ?thesis
  proof (cases r)
    case (Inl err)
    with m show ?thesis
      by (intro no_matches [of err "EvLog InfoLevel ''Attempting to upload''
             [(''region'', StrVal (Region p)), (''endpoint'', StrVal (Endpoint p)),
              (''bucket'', StrVal (Bucket p))]"
            "EvLog ErrorLevel ''Could not match files'' [(''error'', ErrVal err)]"])
         (simp_all add: Exec_def Let_def Exec_init_def emit_def)
  next
    case (Inr ms)
    let ?st0 = "(Exec_init p w :: ('w, 'f) state)\<lparr>world := w0\<rparr>"
    obtain out st' where l: "Exec_loop sys (newClient p) ms ?st0 = (out, st')"
      by (cases "Exec_loop sys (newClient p) ms ?st0")
    from Exec_of_loop [OF m [unfolded Inr] l]
    have e: "Exec sys p w =
           (case out of Continue \<Rightarrow> None | Return e \<Rightarrow> Some e, run_deferred sys st')" .
    show ?thesis
      by (rule looped [OF m [unfolded Inr] l, of "EvLog InfoLevel ''Attempting to upload''
             [(''region'', StrVal (Region p)), (''endpoint'', StrVal (Endpoint p)),
              (''bucket'', StrVal (Bucket p))]"])
         (simp_all add: e run_deferred_trace Exec_init_def emit_def)
  qed
qed

lemma Exec_event_origin:
  fixes sys :: "('w, 'f) sys"
  assumes ev: "ev \<in> set (trace (snd (Exec sys p w)))" and nl: "\<not> is_log ev" and nc: "\<not> is_close ev"
  shows "\<exists>m st1 o2 st2 xs ys.
           Exec_body sys (newClient p) m st1 = (o2, st2)
         \<and> plugin st1 = p
         \<and> ev \<in> set (added st1 st2)
         \<and> trace (snd (Exec sys p w)) = xs @ added st1 st2 @ ys
         \<and> (o2 = Continue \<or> fst (Exec sys p w) = (case o2 of Continue \<Rightarrow> None | Return e \<Rightarrow> Some e))"
proof (cases rule: Exec_trace_cases [of sys p w])
  case (no_matches err l1 l2)
  with ev nl show ?thesis by auto
next
  case (looped ms w0 out st' l1)
  let ?st0 = "(Exec_init p w :: ('w, 'f) state)\<lparr>world := w0\<rparr>"
  from Exec_loop_trace [OF looped(2)] obtain evs where t: "trace st' = trace ?st0 @ evs" ..
  have "ev \<notin> set (map EvClose (deferred st'))" using nc by auto
  with ev looped(4,5,6) t nl have "ev \<in> set evs" by auto
  with trace_added [OF t] have "ev \<in> set (added ?st0 st')" by simp
  from Exec_loop_event_origin [OF looped(2) this]
  obtain pre m post st1 o2 st2 xs ys where
    b: "Exec_body sys (newClient p) m st1 = (o2, st2)" and a: "ev \<in> set (added st1 st2)"
    and x: "trace st1 = trace ?st0 @ xs" and y: "trace st' = trace st2 @ ys"
    and pl: "plugin st1 = plugin ?st0" and o: "o2 = Continue \<or> out = o2" by blast
  from pl have pl': "plugin st1 = p" by (simp add: Exec_init_simps)
  from Exec_body_added [OF b] y looped(6)
  have tr: "trace (snd (Exec sys p w)) = trace st1 @ added st1 st2 @ (ys @ map EvClose (deferred st'))"
    by simp
  from o looped(3) have o': "o2 = Continue \<or>
      fst (Exec sys p w) = (case o2 of Continue \<Rightarrow> None | Return e \<Rightarrow> Some e)" by auto
  from b pl' a tr o' show ?thesis by blast
qed

subsection \<open>Compression\<close>

text \<open>
  C2. In the trace of a run with \<open>Compress\<close> set, every request sent follows at once
  the copy of a file through the gzip writer, which follows at once the opening of that
  file for a path; its body is the gzip encoding of the bytes copied and its content
  encoding is \<open>gzip\<close>. In the trace of a run without \<open>Compress\<close>, every request sent
  follows at once the opening of a file for a path; its body is that open file and its
  content encoding is not set. When a copy through the gzip writer fails in a run, the
  run returns the error of the copy.
\<close>

theorem request_body_follows_Compress:
  fixes sys :: "('w, 'f) sys"
  shows "(EvPutObject c input r \<in> set (trace (snd (Exec sys p w))) \<and> Compress p \<longrightarrow>
            (\<exists>xs ys m f bs.
               trace (snd (Exec sys p w)) =
                 xs @ [EvOpen m (Inr f), EvCopy f (Inr bs), EvPutObject c input r] @ ys
             \<and> in_Body input = Some (BytesBody (GzipEncode sys bs))
             \<and> in_ContentEncoding input = Some ''gzip''))
       \<and> (EvPutObject c input r \<in> set (trace (snd (Exec sys p w))) \<and> \<not> Compress p \<longrightarrow>
            (\<exists>xs ys m f.
               trace (snd (Exec sys p w)) = xs @ [EvOpen m (Inr f), EvPutObject c input r] @ ys
             \<and> in_Body input = Some (FileBody f)
             \<and> in_ContentEncoding input = None))
       \<and> (EvCopy g (Inl err) \<in> set (trace (snd (Exec sys p w))) \<longrightarrow>
            fst (Exec sys p w) = Some err)"
proof (intro conjI impI; (elim conjE)?)
  assume ev: "EvPutObject c input r \<in> set (trace (snd (Exec sys p w)))" and z: "Compress p"
  from Exec_event_origin [OF ev] obtain m st1 o2 st2 xs ys where
    b: "Exec_body sys (newClient p) m st1 = (o2, st2)" and pl: "plugin st1 = p"
    and a: "EvPutObject c input r \<in> set (added st1 st2)"
    and t: "trace (snd (Exec sys p w)) = xs @ added st1 st2 @ ys" by auto
  from Exec_body_put_gzipped [OF b a] z pl obtain xs' ys' f bs where
    "added st1 st2 = xs' @ [EvOpen m (Inr f), EvCopy f (Inr bs), EvPutObject c input r] @ ys'"
    and body: "in_Body input = Some (BytesBody (GzipEncode sys bs))"
      "in_ContentEncoding input = Some ''gzip''" by auto
  with t have "trace (snd (Exec sys p w)) =
      (xs @ xs') @ [EvOpen m (Inr f), EvCopy f (Inr bs), EvPutObject c input r] @ (ys' @ ys)"
    by simp
  with body show "\<exists>xs ys m f bs.
               trace (snd (Exec sys p w)) =
                 xs @ [EvOpen m (Inr f), EvCopy f (Inr bs), EvPutObject c input r] @ ys
             \<and> in_Body input = Some (BytesBody (GzipEncode sys bs))
             \<and> in_ContentEncoding input = Some ''gzip''" by blast
next
  assume ev: "EvPutObject c input r \<in> set (trace (snd (Exec sys p w)))" and z: "\<not> Compress p"
  from Exec_event_origin [OF ev] obtain m st1 o2 st2 xs ys where
    b: "Exec_body sys (newClient p) m st1 = (o2, st2)" and pl: "plugin st1 = p"
    and a: "EvPutObject c input r \<in> set (added st1 st2)"
    and t: "trace (snd (Exec sys p w)) = xs @ added st1 st2 @ ys" by auto
  from Exec_body_put_raw [OF b a] z pl obtain xs' ys' f where
    "added st1 st2 = xs' @ [EvOpen m (Inr f), EvPutObject c input r] @ ys'"
    and body: "in_Body input = Some (FileBody f)" "in_ContentEncoding input = None" by auto
  with t have "trace (snd (Exec sys p w)) =
      (xs @ xs') @ [EvOpen m (Inr f), EvPutObject c input r] @ (ys' @ ys)"
    by simp
  with body show "\<exists>xs ys m f.
               trace (snd (Exec sys p w)) = xs @ [EvOpen m (Inr f), EvPutObject c input r] @ ys
             \<and> in_Body input = Some (FileBody f)
             \<and> in_ContentEncoding input = None" by blast
next
  assume ev: "EvCopy g (Inl err) \<in> set (trace (snd (Exec sys p w)))"
  from Exec_event_origin [OF ev] obtain m st1 o2 st2 where
    b: "Exec_body sys (newClient p) m st1 = (o2, st2)"
    and a: "EvCopy g (Inl err) \<in> set (added st1 st2)"
    and o: "o2 = Continue \<or> fst (Exec sys p w) = (case o2 of Continue \<Rightarrow> None | Return e \<Rightarrow> Some e)"
    by auto
  from Exec_body_failure [OF b a] have "o2 = Return err" by simp
  with o show "fst (Exec sys p w) = Some err" by simp
qed

theorem request_body_follows_Compress_witness:
  "EvPutObject (newClient demo_plugin)
       \<lparr>in_Bucket = ''b'', in_Key = ''/bundle/a.txt'', in_ACL = ''private'',
        in_ContentType = ''text/plain; charset=utf-8'',
        in_Body = Some (BytesBody [31, 139, 1, 2, 3]), in_ContentEncoding = Some ''gzip''\<rparr> None
     \<in> set (trace (snd (Exec demo_sys (demo_plugin\<lparr>Source := ''*'', Compress := True\<rparr>) [])))
   \<and> Compress (demo_plugin\<lparr>Source := ''*'', Compress := True\<rparr>)
   \<and> EvPutObject (newClient demo_plugin)
       \<lparr>in_Bucket = ''b'', in_Key = ''/bundle/a.txt'', in_ACL = ''private'',
        in_ContentType = ''text/plain; charset=utf-8'',
        in_Body = Some (FileBody ''a.txt''), in_ContentEncoding = None\<rparr> None
     \<in> set (trace (snd (Exec demo_sys (demo_plugin\<lparr>Source := ''*''\<rparr>) [])))
   \<and> \<not> Compress (demo_plugin\<lparr>Source := ''*''\<rparr>)
   \<and> EvCopy ''torn.txt'' (Inl (Err ''input/output error''))
     \<in> set (trace (snd (Exec demo_sys (demo_plugin\<lparr>Source := ''t*'', Compress := True\<rparr>) [])))
   \<and> fst (Exec demo_sys (demo_plugin\<lparr>Source := ''t*'', Compress := True\<rparr>) [])
       = Some (Err ''input/output error'')"
  using
    request_body_follows_Compress [where sys = demo_sys and w = "[]"
      and p = "demo_plugin\<lparr>Source := ''*'', Compress := True\<rparr>"
      and c = "newClient demo_plugin" and r = None
      and input = "\<lparr>in_Bucket = ''b'', in_Key = ''/bundle/a.txt'', in_ACL = ''private'',
        in_ContentType = ''text/plain; charset=utf-8'',
        in_Body = Some (BytesBody [31, 139, 1, 2, 3]), in_ContentEncoding = Some ''gzip''\<rparr>",
      THEN conjunct1]
    request_body_follows_Compress [where sys = demo_sys and w = "[]"
      and p = "demo_plugin\<lparr>Source := ''*''\<rparr>"
      and c = "newClient demo_plugin" and r = None
      and input = "\<lparr>in_Bucket = ''b'', in_Key = ''/bundle/a.txt'', in_ACL = ''private'',
        in_ContentType = ''text/plain; charset=utf-8'',
        in_Body = Some (FileBody ''a.txt''), in_ContentEncoding = None\<rparr>",
      THEN conjunct2, THEN conjunct1]
    request_body_follows_Compress [where sys = demo_sys and w = "[]"
      and p = "demo_plugin\<lparr>Source := ''t*'', Compress := True\<rparr>"
      and g = "''torn.txt''" and err = "Err ''input/output error''",
      THEN conjunct2, THEN conjunct2]
  by (simp add: demo_defs run_defs)

end
